theory Spec2Isabelle
  imports Main
begin

section \<open>JavaScript values\<close>

text \<open>
  A verification development for the collection layer of the library (collections.ts)
  and the helpers of globals/index.ts it calls.

  The library is dynamically typed; the values it handles are embedded as one datatype:
  \<open>undefined\<close>, \<open>null\<close>, booleans, integral numbers and \<open>NaN\<close>, strings, dense arrays,
  plain objects (\<open>JObj\<close>: the prototype is \<open>Object.prototype\<close>, the list holds the own
  enumerable data properties in enumeration order), plain objects that also carry an own
  \<open>Symbol.toStringTag\<close> (\<open>JTagged\<close>), the wrapper objects \<open>new String(s)\<close>,
  \<open>new Boolean(b)\<close> and \<open>new Number(n)\<close>, ordinary functions, the built-in functions of
  the host (by name) and the object \<open>Object.prototype\<close>. Values are trees: an array or
  object is given by its contents, so the result of an operation that mutates its argument
  in place is the new contents.

  A function value is a handle; what it computes is given by an interpretation
  \<open>app f this args\<close>, a parameter of every operation that calls user code, which either
  returns a value or throws.

  Not in this datatype: symbols, accessors, proxies, sparse arrays, arrays and functions
  with further own properties, non-integral and infinite numbers, objects with another
  prototype, structures that share or contain themselves. The keys of a property list
  are distinct. An object that an operation of the library builds and returns is given
  by its own properties.
\<close>

datatype jsval =
    JUndefined
  | JNull
  | JBool bool
  | JNum int
  | JNaN
  | JStr string
  | JArr "jsval list"
  | JObj "(string \<times> jsval) list"
  | JTagged jsval "(string \<times> jsval) list"
  | JString string
  | JBoolean bool
  | JNumber int
  | JFun nat
  | JNative string
  | JObjectPrototype

text \<open>Everything the sources and the host throw, as a value.\<close>

datatype error =
    TypeError string
  | NotImplementedError
  | ValueError
  | Thrown jsval

type_synonym fun_interp = "nat \<Rightarrow> jsval \<Rightarrow> jsval list \<Rightarrow> error + jsval"

text \<open>
  The host. Where the answer of the language lies outside what this development
  computes (the members of the built-in prototypes of strings, numbers, booleans,
  arrays and functions, the source text of a function, the text of a number from
  \<open>10^21\<close> on, arithmetic and comparison on operands that first have to be
  converted, the result of calling a built-in function), the definitions ask the host:
  an operation name and its operands give the answer. No definition decides such a
  case by itself, and every theorem holds whatever the host answers.
\<close>

type_synonym host = "string \<Rightarrow> jsval list \<Rightarrow> jsval"

section \<open>The language: coercions and property access\<close>

text \<open>
  What the language itself does for the library: truthiness, \<open>typeof\<close>, \<open>String(v)\<close>
  (also the coercion of a value used as a property key), reading a property and
  assigning one.
\<close>

definition truthy :: "jsval \<Rightarrow> bool" where
  "truthy v = (case v of
       JUndefined \<Rightarrow> False
     | JNull \<Rightarrow> False
     | JBool b \<Rightarrow> b
     | JNum n \<Rightarrow> n \<noteq> 0
     | JNaN \<Rightarrow> False
     | JStr s \<Rightarrow> s \<noteq> []
     | _ \<Rightarrow> True)"

fun typeof :: "jsval \<Rightarrow> string" where
  "typeof JUndefined = ''undefined''"
| "typeof JNull = ''object''"
| "typeof (JBool b) = ''boolean''"
| "typeof (JNum n) = ''number''"
| "typeof JNaN = ''number''"
| "typeof (JStr s) = ''string''"
| "typeof (JArr xs) = ''object''"
| "typeof (JObj ps) = ''object''"
| "typeof (JTagged t ps) = ''object''"
| "typeof (JString s) = ''object''"
| "typeof (JBoolean b) = ''object''"
| "typeof (JNumber n) = ''object''"
| "typeof (JFun f) = ''function''"
| "typeof (JNative n) = ''function''"
| "typeof JObjectPrototype = ''object''"

definition isNull :: "jsval \<Rightarrow> bool" where
  "isNull x = (x = JNull \<or> x = JUndefined)"

text \<open>The text the host gives for a value.\<close>

definition host_text :: "host \<Rightarrow> jsval \<Rightarrow> string" where
  "host_text H v = (case H ''String'' [v] of JStr s \<Rightarrow> s | _ \<Rightarrow> [])"

text \<open>The decimal numeral of a number: \<open>String(n)\<close> for an integral \<open>n\<close> of magnitude
  below \<open>10^21\<close>. From there on the language writes an exponent.\<close>

definition digit_char :: "nat \<Rightarrow> char" where
  "digit_char n = char_of (48 + n)"

fun digits_of :: "nat \<Rightarrow> string" where
  "digits_of n = (if 10 \<le> n then digits_of (n div 10) @ [digit_char (n mod 10)] else [digit_char n])"

declare digits_of.simps [simp del]

definition number_to_string :: "host \<Rightarrow> int \<Rightarrow> string" where
  "number_to_string H i =
     (if 1000000000000000000000 \<le> \<bar>i\<bar> then host_text H (JNum i)
      else if 0 \<le> i then digits_of (nat i)
      else CHR ''-'' # digits_of (nat (- i)))"

definition is_digit :: "char \<Rightarrow> bool" where
  "is_digit c = (48 \<le> (of_char c :: nat) \<and> (of_char c :: nat) \<le> 57)"

definition digit_val :: "char \<Rightarrow> int" where
  "digit_val c = int (of_char c) - 48"

definition int_of_digits :: "string \<Rightarrow> int" where
  "int_of_digits s = foldl (\<lambda>n c. 10 * n + digit_val c) 0 s"

text \<open>The canonical numeral of a natural number, as a property key; it is an array index
  when the number is below \<open>2^32 - 1\<close>.\<close>

definition canonical_nat :: "string \<Rightarrow> nat option" where
  "canonical_nat k =
     (if k \<noteq> [] \<and> list_all is_digit k \<and> (length k = 1 \<or> hd k \<noteq> CHR ''0'')
      then Some (nat (int_of_digits k)) else None)"

definition array_index :: "string \<Rightarrow> nat option" where
  "array_index k =
     (if k \<noteq> [] \<and> list_all is_digit k \<and> (length k = 1 \<or> hd k \<noteq> CHR ''0'')
         \<and> int_of_digits k < 4294967295
      then Some (nat (int_of_digits k)) else None)"

fun join :: "string \<Rightarrow> string list \<Rightarrow> string" where
  "join sep [] = []"
| "join sep [s] = s"
| "join sep (s # t # ts) = s @ sep @ join sep (t # ts)"

text \<open>
  \<open>String(v)\<close>, which is also the property key a value stands for. An array joins its
  elements with commas, \<open>null\<close> and \<open>undefined\<close> elements as the empty string. A plain
  object without an own \<open>toString\<close> gets the text of \<open>Object.prototype.toString\<close>:
  \<open>[object Object]\<close>, or \<open>[object T]\<close> when its \<open>Symbol.toStringTag\<close> is the string
  \<open>T\<close>. With an own \<open>toString\<close>, and for a function, the text is the host's.
\<close>

fun to_string :: "host \<Rightarrow> jsval \<Rightarrow> string" where
  "to_string H JUndefined = ''undefined''"
| "to_string H JNull = ''null''"
| "to_string H (JBool b) = (if b then ''true'' else ''false'')"
| "to_string H (JNum n) = number_to_string H n"
| "to_string H JNaN = ''NaN''"
| "to_string H (JStr s) = s"
| "to_string H (JArr xs) = join '','' (map (\<lambda>x. if isNull x then [] else to_string H x) xs)"
| "to_string H (JObj ps) =
     (if map_of ps ''toString'' = None then ''[object Object]'' else host_text H (JObj ps))"
| "to_string H (JTagged t ps) =
     (if map_of ps ''toString'' = None
      then (case t of JStr s \<Rightarrow> ''[object '' @ s @ '']'' | _ \<Rightarrow> ''[object Object]'')
      else host_text H (JTagged t ps))"
| "to_string H (JString s) = s"
| "to_string H (JBoolean b) = (if b then ''true'' else ''false'')"
| "to_string H (JNumber n) = number_to_string H n"
| "to_string H (JFun f) = host_text H (JFun f)"
| "to_string H (JNative n) = host_text H (JNative n)"
| "to_string H JObjectPrototype = ''[object Object]''"

text \<open>
  The string-keyed members of \<open>Object.prototype\<close>, which every plain object inherits:
  \<open>constructor\<close> is \<open>Object\<close>, \<open>__proto__\<close> reads the prototype, the others are
  built-in functions.
\<close>

definition object_prototype_names :: "string list" where
  "object_prototype_names =
     [''constructor'', ''__defineGetter__'', ''__defineSetter__'', ''hasOwnProperty'',
      ''__lookupGetter__'', ''__lookupSetter__'', ''isPrototypeOf'', ''propertyIsEnumerable'',
      ''toString'', ''valueOf'', ''__proto__'', ''toLocaleString'']"

definition object_prototype_member :: "jsval \<Rightarrow> string \<Rightarrow> jsval" where
  "object_prototype_member proto k =
     (if k = ''constructor'' then JNative ''Object''
      else if k = ''__proto__'' then proto
      else if k \<in> set object_prototype_names then JNative (''Object.prototype.'' @ k)
      else JUndefined)"

text \<open>A read the host answers: a member found on the prototype chain of a string, a
  number, a boolean, an array or a function, or an own property of a function. Such a
  member is named by an identifier; under any other key nothing is found.\<close>

definition is_identifier_char :: "char \<Rightarrow> bool" where
  "is_identifier_char c =
     (let n = (of_char c :: nat) in
      (48 \<le> n \<and> n \<le> 57) \<or> (65 \<le> n \<and> n \<le> 90) \<or> (97 \<le> n \<and> n \<le> 122) \<or> n = 95 \<or> n = 36)"

definition is_identifier :: "string \<Rightarrow> bool" where
  "is_identifier k = (k \<noteq> [] \<and> list_all is_identifier_char k \<and> \<not> is_digit (hd k))"

definition host_member :: "host \<Rightarrow> jsval \<Rightarrow> string \<Rightarrow> jsval" where
  "host_member H obj k = (if is_identifier k then H ''get'' [obj, JStr k] else JUndefined)"

text \<open>
  \<open>obj[k]\<close> for a string key \<open>k\<close> and an \<open>obj\<close> other than \<open>null\<close> and
  \<open>undefined\<close>: own properties first (the elements and \<open>length\<close> of an array, a string
  or a String object), then the prototype chain. The \<open>constructor\<close> every kind of value
  inherits, and the \<open>call\<close> of a function, are the standard ones.
  \<open>getprop\<close> is the read of the source text, with the key coerced and the TypeError of
  reading from \<open>null\<close> or \<open>undefined\<close>.
\<close>

definition string_member :: "host \<Rightarrow> jsval \<Rightarrow> string \<Rightarrow> string \<Rightarrow> jsval" where
  "string_member H obj s k =
     (case canonical_nat k of
        Some i \<Rightarrow> if i < length s then JStr [s ! i] else host_member H obj k
      | None \<Rightarrow>
          if k = ''length'' then JNum (int (length s))
          else if k = ''constructor'' then JNative ''String''
          else host_member H obj k)"

definition js_prop :: "host \<Rightarrow> jsval \<Rightarrow> string \<Rightarrow> jsval" where
  "js_prop H obj k =
     (case obj of
        JObj ps \<Rightarrow>
          (case map_of ps k of
             Some v \<Rightarrow> v
           | None \<Rightarrow> object_prototype_member JObjectPrototype k)
      | JTagged t ps \<Rightarrow>
          (case map_of ps k of
             Some v \<Rightarrow> v
           | None \<Rightarrow> object_prototype_member JObjectPrototype k)
      | JObjectPrototype \<Rightarrow> object_prototype_member JNull k
      | JArr xs \<Rightarrow>
          (case canonical_nat k of
             Some i \<Rightarrow> if i < length xs then xs ! i else host_member H obj k
           | None \<Rightarrow>
               if k = ''length'' then JNum (int (length xs))
               else if k = ''constructor'' then JNative ''Array''
               else host_member H obj k)
      | JStr s \<Rightarrow> string_member H obj s k
      | JString s \<Rightarrow> string_member H obj s k
      | JNum n \<Rightarrow> if k = ''constructor'' then JNative ''Number'' else host_member H obj k
      | JNaN \<Rightarrow> if k = ''constructor'' then JNative ''Number'' else host_member H obj k
      | JNumber n \<Rightarrow> if k = ''constructor'' then JNative ''Number'' else host_member H obj k
      | JBool b \<Rightarrow> if k = ''constructor'' then JNative ''Boolean'' else host_member H obj k
      | JBoolean b \<Rightarrow> if k = ''constructor'' then JNative ''Boolean'' else host_member H obj k
      | JFun f \<Rightarrow>
          if k = ''constructor'' then JNative ''Function''
          else if k = ''call'' then JNative ''Function.prototype.call''
          else host_member H obj k
      | JNative n \<Rightarrow>
          if k = ''constructor'' then JNative ''Function''
          else if k = ''call'' then JNative ''Function.prototype.call''
          else host_member H obj k
      | _ \<Rightarrow> JUndefined)"

definition getprop :: "host \<Rightarrow> jsval \<Rightarrow> jsval \<Rightarrow> error + jsval" where
  "getprop H obj key =
     (if isNull obj then Inl (TypeError ''Cannot read properties of undefined or null'')
      else Inr (js_prop H obj (to_string H key)))"

text \<open>
  \<open>obj[k] = v\<close> on an object the library has created with \<open>{}\<close>, given by its own
  properties: an existing key keeps its place; the key \<open>__proto__\<close>, when it is no own
  property, reaches the setter of \<open>Object.prototype\<close>, which creates no property; a new
  key that is an array index goes among the array indices in ascending numeric order,
  before every other key; any other new key goes last. This is the order in which
  \<open>for ... in\<close>, \<open>Object.keys\<close> and \<open>Object.values\<close> enumerate.
\<close>

fun insert_index :: "nat \<Rightarrow> string \<Rightarrow> jsval \<Rightarrow> (string \<times> jsval) list \<Rightarrow> (string \<times> jsval) list" where
  "insert_index n k v [] = [(k, v)]"
| "insert_index n k v (p # ps) =
     (case array_index (fst p) of
        Some m \<Rightarrow> if m < n then p # insert_index n k v ps else (k, v) # p # ps
      | None \<Rightarrow> (k, v) # p # ps)"

fun replace_value :: "string \<Rightarrow> jsval \<Rightarrow> (string \<times> jsval) list \<Rightarrow> (string \<times> jsval) list" where
  "replace_value k v [] = []"
| "replace_value k v (p # ps) = (if fst p = k then (k, v) # ps else p # replace_value k v ps)"

definition obj_set :: "(string \<times> jsval) list \<Rightarrow> string \<Rightarrow> jsval \<Rightarrow> (string \<times> jsval) list" where
  "obj_set ps k v =
     (if k \<in> set (map fst ps) then replace_value k v ps
      else if k = ''__proto__'' then ps
      else case array_index k of
             Some n \<Rightarrow> insert_index n k v ps
           | None \<Rightarrow> ps @ [(k, v)])"

text \<open>The keys \<open>for (const i in obj)\<close> visits: the own enumerable string keys (the
  built-in prototypes have no enumerable member).\<close>

definition for_in :: "jsval \<Rightarrow> string list" where
  "for_in obj =
     (case obj of
        JObj ps \<Rightarrow> map fst ps
      | JTagged t ps \<Rightarrow> map fst ps
      | JArr xs \<Rightarrow> map digits_of [0..<length xs]
      | JStr s \<Rightarrow> map digits_of [0..<length s]
      | JString s \<Rightarrow> map digits_of [0..<length s]
      | _ \<Rightarrow> [])"

text \<open>A default parameter takes its default when the argument is \<open>undefined\<close>.\<close>

definition with_default :: "jsval \<Rightarrow> jsval \<Rightarrow> jsval" where
  "with_default d v = (if v = JUndefined then d else v)"

text \<open>Calling a value: a function handle is interpreted, a built-in function is the
  host's, anything else is not callable.\<close>

definition invoke :: "host \<Rightarrow> fun_interp \<Rightarrow> jsval \<Rightarrow> jsval \<Rightarrow> jsval list \<Rightarrow> error + jsval" where
  "invoke H app f this args =
     (case f of
        JFun h \<Rightarrow> app h this args
      | JNative n \<Rightarrow> Inr (H ''call'' (f # this # args))
      | _ \<Rightarrow> Inl (TypeError ''not a function''))"


text \<open>The elements of an array value, and \<open>arr.splice(start, deleteCount, ...items)\<close> as
  the new contents of \<open>arr\<close>.\<close>

definition elements :: "jsval \<Rightarrow> jsval list" where
  "elements v = (case v of JArr xs \<Rightarrow> xs | _ \<Rightarrow> [])"

definition splice_js :: "'a list \<Rightarrow> nat \<Rightarrow> nat \<Rightarrow> 'a list \<Rightarrow> 'a list" where
  "splice_js arr start deleteCount items = take start arr @ items @ drop (start + deleteCount) arr"

section \<open>globals/index.ts\<close>

text \<open>\<open>str(obj)\<close> is \<open>obj != null ? obj.toString() : ''\<close>.\<close>

definition str :: "host \<Rightarrow> jsval \<Rightarrow> string" where
  "str H obj = (if \<not> isNull obj then to_string H obj else [])"

text \<open>\<open>value instanceof C\<close> for a built-in constructor \<open>C\<close>, \<open>value[Symbol.toStringTag]\<close>
  and \<open>className.endsWith(suffix)\<close>.\<close>

definition instance_of :: "jsval \<Rightarrow> string \<Rightarrow> bool" where
  "instance_of value C =
     (case value of
        JString s \<Rightarrow> C = ''String''
      | JBoolean b \<Rightarrow> C = ''Boolean''
      | JNumber n \<Rightarrow> C = ''Number''
      | JArr xs \<Rightarrow> C = ''Array''
      | JFun f \<Rightarrow> C = ''Function''
      | JNative n \<Rightarrow> C = ''Function''
      | _ \<Rightarrow> False)"

definition toStringTag :: "jsval \<Rightarrow> jsval" where
  "toStringTag value = (case value of JTagged t ps \<Rightarrow> t | _ \<Rightarrow> JUndefined)"

definition endsWith :: "string \<Rightarrow> string \<Rightarrow> bool" where
  "endsWith s suffix = (length suffix \<le> length s \<and> drop (length s - length suffix) s = suffix)"

definition isArray :: "jsval \<Rightarrow> bool" where
  "isArray x = (case x of JArr xs \<Rightarrow> True | _ \<Rightarrow> False)"

text \<open>
  \<open>type(value)\<close> refines \<open>typeof\<close>, test by test as in the source. It returns a
  string, or the value of \<open>Symbol.toStringTag\<close> as it is.
\<close>

definition type :: "host \<Rightarrow> jsval \<Rightarrow> jsval" where
  "type H value =
     (let result = typeof value in
      if result = ''object'' then
        (if truthy value then
           (if instance_of value ''String'' then JStr ''string''
            else if instance_of value ''Boolean'' then JStr ''boolean''
            else if instance_of value ''Function'' then JStr ''function''
            else if instance_of value ''Array'' then JStr ''array''
            else if truthy (toStringTag value) then toStringTag value
            else
              (let className = str H value in
               if className = ''[object Window]'' then JStr ''object''
               else if endsWith className ''Array]'' \<or> isArray value then JStr ''array''
               else if endsWith className ''Function]''
                       \<or> typeof (js_prop H value ''call'') = ''function'' then JStr ''function''
               else if className = ''[object Promise]'' \<or> instance_of value ''Promise''
               then JStr ''Promise''
               else JStr result))
         else JStr ''null'')
      else if result = ''function'' \<and> typeof (js_prop H value ''call'') = ''undefined''
      then JStr ''object''
      else if value = JNaN then JStr ''NaN''
      else JStr result)"

definition isBool :: "host \<Rightarrow> jsval \<Rightarrow> bool" where
  "isBool H x = (type H x = JStr ''boolean'')"

definition isObject :: "host \<Rightarrow> jsval \<Rightarrow> bool" where
  "isObject H x = (typeof x = ''object'' \<and> type H x = JStr ''object'')"

definition isString :: "host \<Rightarrow> jsval \<Rightarrow> bool" where
  "isString H x = (type H x = JStr ''string'')"

definition isNumber :: "host \<Rightarrow> jsval \<Rightarrow> bool" where
  "isNumber H x = (type H x = JStr ''number'')"

text \<open>\<open>isFunc(x)\<close> is \<open>x?.constructor === Function\<close>.\<close>

definition isFunc :: "host \<Rightarrow> jsval \<Rightarrow> bool" where
  "isFunc H x = (if isNull x then False else js_prop H x ''constructor'' = JNative ''Function'')"

text \<open>\<open>isEmpty(x)\<close> is \<open>len(x) === 0 ? true : !x\<close>. The library applies it to the
  string \<open>prefix\<close> of \<open>flattenObj\<close>, where \<open>len(x)\<close> is \<open>x.length\<close>; it is modelled at
  that type.\<close>

definition isEmpty :: "string \<Rightarrow> bool" where
  "isEmpty x = (if int (length x) = 0 then True else \<not> truthy (JStr x))"

text \<open>
  \<open>get(key, obj, value)\<close>: the path is \<open>key\<close> itself when it is an array, the pieces of
  \<open>key.split('.')\<close> when it is a string, and the single key otherwise; the walk reads
  one property per step, and an exception of the walk (reading from \<open>null\<close> or
  \<open>undefined\<close>) is caught and gives the default.
\<close>

fun split_dot :: "string \<Rightarrow> string list" where
  "split_dot [] = [[]]"
| "split_dot (c # cs) =
     (if c = CHR ''.'' then [] # split_dot cs
      else case split_dot cs of
             w # ws \<Rightarrow> (c # w) # ws
           | [] \<Rightarrow> [[c]])"

fun get_path :: "host \<Rightarrow> jsval \<Rightarrow> jsval list \<Rightarrow> error + jsval" where
  "get_path H result [] = Inr result"
| "get_path H result (k # paths) =
     (case getprop H result k of
        Inl e \<Rightarrow> Inl e
      | Inr r \<Rightarrow> get_path H r paths)"

definition get :: "host \<Rightarrow> jsval \<Rightarrow> jsval \<Rightarrow> jsval \<Rightarrow> jsval" where
  "get H key obj value =
     (if isNull obj then value
      else
        let paths = (if isArray key then elements key else [key]);
            paths = (if typeof key = ''string'' then map JStr (split_dot (to_string H key)) else paths)
        in (case get_path H obj paths of
              Inl e \<Rightarrow> value
            | Inr result \<Rightarrow> if result = JUndefined then value else result))"

text \<open>
  \<open>call(obj, key, ...args)\<close>: "Checks if \<open>obj.key\<close> is a function, and calls it with any
  given \<open>args\<close>"; it returns \<open>undefined\<close> otherwise. The first parameter is the object,
  the second the method name.
\<close>

definition call :: "host \<Rightarrow> fun_interp \<Rightarrow> jsval \<Rightarrow> jsval \<Rightarrow> jsval list \<Rightarrow> error + jsval" where
  "call H app obj key args =
     (if isFunc H (get H key obj JUndefined)
      then (case getprop H obj key of
              Inl e \<Rightarrow> Inl e
            | Inr f \<Rightarrow> invoke H app f obj args)
      else Inr JUndefined)"

section \<open>collections.ts: Collection\<close>

text \<open>
  The abstract base class: the bodies below are what a subclass inherits for each
  method it does not override. The state of the concrete container is a type
  parameter; the base methods never touch it.
\<close>

definition Collection_contains :: "'s \<Rightarrow> jsval \<Rightarrow> bool" where
  "Collection_contains s item = False"

definition Collection_size :: "'s \<Rightarrow> (error + int) \<times> 's" where
  "Collection_size s = (Inl NotImplementedError, s)"

text \<open>\<open>remove(x) {}\<close>, documented as "Remove the first item from the container where
  \<open>item == x\<close>; raises ValueError when x is not found".\<close>

definition Collection_remove :: "'s \<Rightarrow> jsval \<Rightarrow> (error + jsval) \<times> 's" where
  "Collection_remove s x = (Inr JUndefined, s)"

section \<open>collections.ts: FrozenSet\<close>

text \<open>
  A \<open>FrozenSet\<close> is a \<open>Set\<close> object: its data is the list of distinct elements in
  insertion order, and \<open>frozen\<close> records \<open>Object.freeze\<close>.
  \<open>Set_add\<close> is \<open>Set.prototype.add\<close>. The constructor \<open>new Set(iterable)\<close> returns
  the empty set when \<open>iterable\<close> is absent; otherwise it reads the property \<open>add\<close>
  of the object under construction and calls it once per element, and an exception
  of that call aborts the construction (ECMAScript, \<open>Set ( [ iterable ] )\<close>). The adder is
  therefore a parameter: a subclass that overrides \<open>add\<close> passes its own.
\<close>

record 'a FrozenSet =
  data :: "'a list"
  frozen :: bool

definition Set_add :: "'a FrozenSet \<Rightarrow> 'a \<Rightarrow> (error + unit) \<times> 'a FrozenSet" where
  "Set_add s x = (Inr (), if x \<in> set (data s) then s else s\<lparr>data := data s @ [x]\<rparr>)"

fun Set_fill ::
  "('a FrozenSet \<Rightarrow> 'a \<Rightarrow> (error + unit) \<times> 'a FrozenSet) \<Rightarrow> 'a FrozenSet \<Rightarrow> 'a list
    \<Rightarrow> error + 'a FrozenSet" where
  "Set_fill adder s [] = Inr s"
| "Set_fill adder s (x # xs) =
     (case adder s x of
        (Inl e, s') \<Rightarrow> Inl e
      | (Inr u, s') \<Rightarrow> Set_fill adder s' xs)"

definition Set_constructor ::
  "('a FrozenSet \<Rightarrow> 'a \<Rightarrow> (error + unit) \<times> 'a FrozenSet) \<Rightarrow> 'a list option
    \<Rightarrow> error + 'a FrozenSet" where
  "Set_constructor adder iterable =
     (case iterable of
        None \<Rightarrow> Inr \<lparr>data = [], frozen = False\<rparr>
      | Some xs \<Rightarrow> Set_fill adder \<lparr>data = [], frozen = False\<rparr> xs)"

text \<open>
  \<open>throw TypeError('FrozenSet cannot be modified.')\<close>: the one error the three mutators
  raise. The specification calls this kind of failure "FrozenMutationError".
\<close>

definition FrozenMutationError :: error where
  "FrozenMutationError = TypeError ''FrozenSet cannot be modified.''"

text \<open>
  \<open>add()\<close>, \<open>delete()\<close> and \<open>clear()\<close> of the class. Each throws before anything
  else; the \<open>return\<close> after the \<open>throw\<close> is unreachable. The argument a caller
  passes is ignored (the methods declare no parameter).
\<close>

definition FrozenSet_add :: "'a FrozenSet \<Rightarrow> 'a \<Rightarrow> (error + unit) \<times> 'a FrozenSet" where
  "FrozenSet_add s x = (Inl FrozenMutationError, s)"

definition FrozenSet_delete :: "'a FrozenSet \<Rightarrow> 'a \<Rightarrow> (error + unit) \<times> 'a FrozenSet" where
  "FrozenSet_delete s x = (Inl FrozenMutationError, s)"

definition FrozenSet_clear :: "'a FrozenSet \<Rightarrow> (error + unit) \<times> 'a FrozenSet" where
  "FrozenSet_clear s = (Inl FrozenMutationError, s)"

definition freeze :: "'a FrozenSet \<Rightarrow> 'a FrozenSet" where
  "freeze s = s\<lparr>frozen := True\<rparr>"

text \<open>
  \<open>constructor(iterable) { super(iterable); return this.freeze() }\<close>. The object under
  construction is a \<open>FrozenSet\<close>, so the \<open>add\<close> that \<open>super(iterable)\<close> looks up is
  \<open>FrozenSet_add\<close>.
\<close>

definition FrozenSet_constructor :: "'a list option \<Rightarrow> error + 'a FrozenSet" where
  "FrozenSet_constructor iterable =
     (case Set_constructor FrozenSet_add iterable of
        Inl e \<Rightarrow> Inl e
      | Inr s \<Rightarrow> Inr (freeze s))"

text \<open>The mutating entry points, and a caller that tries them one after the other,
  catching each failure.\<close>

datatype 'a mutation = Add 'a | Delete 'a | Clear

fun FrozenSet_call :: "'a FrozenSet \<Rightarrow> 'a mutation \<Rightarrow> (error + unit) \<times> 'a FrozenSet" where
  "FrozenSet_call s (Add x) = FrozenSet_add s x"
| "FrozenSet_call s (Delete x) = FrozenSet_delete s x"
| "FrozenSet_call s Clear = FrozenSet_clear s"

fun FrozenSet_calls ::
  "'a FrozenSet \<Rightarrow> 'a mutation list \<Rightarrow> (error + unit) list \<times> 'a FrozenSet" where
  "FrozenSet_calls s [] = ([], s)"
| "FrozenSet_calls s (m # ms) =
     (case FrozenSet_call s m of
        (r, s') \<Rightarrow> (case FrozenSet_calls s' ms of (rs, s'') \<Rightarrow> (r # rs, s'')))"

section \<open>collections.ts: pick\<close>

text \<open>
  \<open>pick(obj, paths)\<close>: \<open>{}\<close> for an absent \<open>obj\<close>; for a list of keys,
  \<open>result[key] = obj[key]\<close> for each; for a predicate, the properties of \<open>obj\<close> it
  accepts; \<open>{}\<close> for any other selector. The result is the object \<open>result\<close>, given by
  its own properties.
\<close>

fun pick_keys ::
  "host \<Rightarrow> jsval \<Rightarrow> jsval list \<Rightarrow> (string \<times> jsval) list \<Rightarrow> (string \<times> jsval) list" where
  "pick_keys H obj [] result = result"
| "pick_keys H obj (key # paths) result =
     pick_keys H obj paths (obj_set result (to_string H key) (js_prop H obj (to_string H key)))"

fun pick_by ::
  "host \<Rightarrow> fun_interp \<Rightarrow> jsval \<Rightarrow> jsval \<Rightarrow> string list \<Rightarrow> (string \<times> jsval) list
    \<Rightarrow> error + (string \<times> jsval) list" where
  "pick_by H app paths obj [] result = Inr result"
| "pick_by H app paths obj (key # keys) result =
     (let v = js_prop H obj key in
      case invoke H app paths JUndefined [v, JStr key] of
        Inl e \<Rightarrow> Inl e
      | Inr t \<Rightarrow> pick_by H app paths obj keys (if truthy t then obj_set result key v else result))"

definition pick :: "host \<Rightarrow> fun_interp \<Rightarrow> jsval \<Rightarrow> jsval \<Rightarrow> error + (string \<times> jsval) list" where
  "pick H app obj paths =
     (if isNull obj then Inr []
      else if isArray paths then Inr (pick_keys H obj (elements paths) [])
      else if typeof paths = ''function'' then pick_by H app paths obj (for_in obj) []
      else Inr [])"

section \<open>collections.ts: flattenObj\<close>

text \<open>
  \<open>flattenObj(o, prefix, result, keepNull)\<close> writes into \<open>result\<close>, which the recursive
  calls share: the model passes it along, as its own properties. It recurses into the
  property values of an array or object, which are smaller than the value itself.
\<close>

lemma digit_char_digit: "n < 10 \<Longrightarrow> is_digit (digit_char n)"
  by (simp add: is_digit_def digit_char_def)

lemma digit_val_char: "n < 10 \<Longrightarrow> digit_val (digit_char n) = int n"
  by (simp add: digit_val_def digit_char_def)

lemma digit_char_zero: "n < 10 \<Longrightarrow> digit_char n = CHR ''0'' \<longleftrightarrow> n = 0"
proof -
  assume n: "n < 10"
  have "digit_char n = CHR ''0'' \<longleftrightarrow> (of_char (digit_char n) :: nat) = of_char CHR ''0''"
    by (simp only: of_char_eq_iff)
  also have "\<dots> \<longleftrightarrow> n = 0" using n by (simp add: digit_char_def)
  finally show ?thesis .
qed

lemma int_of_digits_snoc: "int_of_digits (s @ [c]) = 10 * int_of_digits s + digit_val c"
  by (simp add: int_of_digits_def)

lemma digits_of_spec:
  "list_all is_digit (digits_of n) \<and> digits_of n \<noteq> [] \<and> int_of_digits (digits_of n) = int n \<and>
   (hd (digits_of n) = CHR ''0'' \<longrightarrow> n = 0) \<and> (length (digits_of n) = 1 \<longleftrightarrow> n < 10)"
proof (induction n rule: digits_of.induct)
  case (1 n)
  show ?case
  proof (cases "10 \<le> n")
    case True
    let ?d = "digits_of (n div 10)"
    have eq: "digits_of n = ?d @ [digit_char (n mod 10)]"
      using True by (subst digits_of.simps) simp
    have m: "n mod 10 < 10" by simp
    from 1 [OF True] have ih: "list_all is_digit ?d" "?d \<noteq> []" "int_of_digits ?d = int (n div 10)"
      "hd ?d = CHR ''0'' \<longrightarrow> n div 10 = 0" by simp_all
    have "int_of_digits (digits_of n) = int n"
    proof -
      have "10 * int (n div 10) + int (n mod 10) = int n" by presburger
      then show ?thesis
        unfolding eq int_of_digits_snoc by (simp add: ih digit_val_char [OF m])
    qed
    moreover have "list_all is_digit (digits_of n)"
      unfolding eq using ih digit_char_digit [OF m] by simp
    moreover have "hd (digits_of n) = CHR ''0'' \<longrightarrow> n = 0"
    proof -
      from True have "n div 10 \<noteq> 0" by simp
      with ih(4) have "hd ?d \<noteq> CHR ''0''" by blast
      then show ?thesis unfolding eq using ih(2) by simp
    qed
    moreover have "length (digits_of n) = 1 \<longleftrightarrow> n < 10"
      unfolding eq using ih(2) True by (cases ?d) simp_all
    ultimately show ?thesis unfolding eq by simp
  next
    case False
    then have eq: "digits_of n = [digit_char n]" by (subst digits_of.simps) simp
    from False have n: "n < 10" by simp
    show ?thesis unfolding eq
      using digit_char_digit [OF n] digit_val_char [OF n] digit_char_zero [OF n] n
      by (simp add: int_of_digits_def)
  qed
qed

lemma canonical_nat_digits_of: "canonical_nat (digits_of n) = Some n"
  using digits_of_spec [of n] by (auto simp: canonical_nat_def)


lemma size_nth_JArr: "j < length xs \<Longrightarrow> size (xs ! j) < size (JArr xs)"
proof -
  assume "j < length xs"
  then have "xs ! j \<in> set xs" by simp
  then have "size (xs ! j) \<le> size_list size xs"
    by (rule size_list_estimation') simp
  then show ?thesis by simp
qed

lemma size_map_of: "map_of ps i = Some v \<Longrightarrow> size v < Suc (size_list (size_prod (\<lambda>_. 0) size) ps)"
proof -
  assume "map_of ps i = Some v"
  then have "(i, v) \<in> set ps" by (rule map_of_SomeD)
  then have "size_prod (\<lambda>_. 0) size (i, v) \<le> size_list (size_prod (\<lambda>_. 0) size) ps"
    by (rule size_list_estimation') simp
  then show ?thesis by simp
qed

lemma map_of_key: "i \<in> set (map fst ps) \<Longrightarrow> \<exists>v. map_of ps i = Some v"
  by (cases "map_of ps i") (auto simp: map_of_eq_None_iff)

lemma isArray_iff: "isArray obj \<longleftrightarrow> (\<exists>xs. obj = JArr xs)"
  by (cases obj) (simp_all add: isArray_def)

lemma size_js_prop:
  "isArray obj \<or> isObject H obj \<Longrightarrow> i \<in> set (for_in obj) \<Longrightarrow> size (js_prop H obj i) < size obj"
proof (cases obj)
  case (JArr xs)
  assume "i \<in> set (for_in obj)"
  then obtain j where j: "j < length xs" and i: "i = digits_of j"
    by (auto simp: for_in_def JArr)
  then show ?thesis
    using size_nth_JArr [OF j] by (simp add: JArr js_prop_def canonical_nat_digits_of)
next
  case (JObj ps)
  assume "i \<in> set (for_in obj)"
  then obtain v where "map_of ps i = Some v"
    using map_of_key [of i ps] by (auto simp: for_in_def JObj)
  then show ?thesis using size_map_of [of ps i v] by (simp add: JObj js_prop_def)
next
  case (JTagged t ps)
  assume "i \<in> set (for_in obj)"
  then obtain v where "map_of ps i = Some v"
    using map_of_key [of i ps] by (auto simp: for_in_def JTagged)
  then show ?thesis using size_map_of [of ps i v] by (simp add: JTagged js_prop_def)
next
  case (JStr s)
  assume "isArray obj \<or> isObject H obj"
  then show ?thesis by (simp add: JStr isArray_def isObject_def)
next
  case (JString s)
  assume "isArray obj \<or> isObject H obj"
  then show ?thesis
    by (simp add: JString isArray_def isObject_def type_def instance_of_def truthy_def)
qed (simp_all add: for_in_def)

function flattenObj ::
  "host \<Rightarrow> jsval \<Rightarrow> string \<Rightarrow> (string \<times> jsval) list \<Rightarrow> bool \<Rightarrow> (string \<times> jsval) list" where
  "flattenObj H obj prefix result keepNull =
     (if isString H obj \<or> isNumber H obj \<or> isBool H obj \<or> (keepNull \<and> isNull obj)
      then obj_set result prefix obj
      else if isArray obj \<or> isObject H obj
      then fold (\<lambda>i result.
                  flattenObj H (js_prop H obj i)
                    (if isArray obj then prefix @ ''['' @ i @ '']''
                     else if isEmpty prefix then i
                     else prefix @ ''.'' @ i)
                    result keepNull)
             (for_in obj) result
      else result)"
  by pat_completeness auto
termination
  by (relation "measure (\<lambda>(H, obj, prefix, result, keepNull). size obj)")
    (auto simp: size_js_prop)

declare flattenObj.simps [simp del]

section \<open>collections.ts: flatten, flattenArray\<close>

text \<open>
  \<open>flattenArray\<close> mutates \<open>arr\<close> in place; the model returns the new contents. The
  loop \<open>for (let i = 0; i < arr.length; i++)\<close> is \<open>flattenArray_loop depth arr i\<close>.
  Its call \<open>flatten(value, typeof depth === 'number' ? depth - 1 : depth)\<close> on the array
  \<open>value\<close> is written out: \<open>flatten\<close> returns \<open>value\<close> when the depth is falsy and
  goes to \<open>flattenArray\<close>, that is to the loop from 0, otherwise (lemma
  \<open>flatten_array\<close> below). The recursion is nested, the splice taking the result of
  the inner call; it terminates because the inner call does not grow its argument.
\<close>

text \<open>\<open>typeof depth === 'number' ? depth - 1 : depth\<close>.\<close>

definition next_depth :: "jsval \<Rightarrow> jsval" where
  "next_depth depth = (case depth of JNum n \<Rightarrow> JNum (n - 1) | _ \<Rightarrow> depth)"

function flattenArray_loop :: "jsval \<Rightarrow> jsval list \<Rightarrow> nat \<Rightarrow> jsval list" where
  "flattenArray_loop depth arr i =
     (if i < length arr then
        (if isArray (arr ! i) then
           (let d = with_default (JNum 1) (next_depth depth);
                v = (if truthy d then flattenArray_loop d (elements (arr ! i)) 0
                     else elements (arr ! i))
            in flattenArray_loop depth (splice_js arr i 1 v) (i + 1))
         else flattenArray_loop depth arr (i + 1))
      else arr)"
  by pat_completeness auto

lemma size_list_drop_le: "size_list f (drop n xs) \<le> size_list f xs"
proof (induction xs arbitrary: n)
  case Nil
  then show ?case by simp
next
  case (Cons x xs)
  show ?case
  proof (cases n)
    case 0
    then show ?thesis by simp
  next
    case (Suc m)
    then show ?thesis using Cons [of m] by simp
  qed
qed

lemma size_list_take_drop: "size_list f (take n xs) + size_list f (drop n xs) = size_list f xs"
  using size_list_append [of f "take n xs" "drop n xs"] by (simp del: size_list_append)

lemma size_list_elements: "isArray x \<Longrightarrow> size x = Suc (size_list size (elements x))"
  by (cases x) (simp_all add: isArray_def elements_def)

lemma size_list_drop_nth:
  "i < length arr \<Longrightarrow>
     size_list f (drop i arr) = f (arr ! i) + size_list f (drop (i + 1) arr) + 1"
  by (simp add: Cons_nth_drop_Suc [symmetric])

lemma flattenArray_loop_size:
  "flattenArray_loop_dom (depth, arr, i) \<Longrightarrow>
     size_list size (flattenArray_loop depth arr i) \<le> size_list size arr"
proof (induction depth arr i rule: flattenArray_loop.pinduct)
  case (1 depth arr i)
  show ?case
  proof (cases "i < length arr")
    case False
    then show ?thesis using 1(1) by (simp add: flattenArray_loop.psimps)
  next
    case lt: True
    show ?thesis
    proof (cases "isArray (arr ! i)")
      case False
      then show ?thesis
        using 1(1) 1(4) lt by (simp add: flattenArray_loop.psimps)
    next
      case arr: True
      define d where "d = with_default (JNum 1) (next_depth depth)"
      define v where "v = (if truthy d then flattenArray_loop d (elements (arr ! i)) 0
                           else elements (arr ! i))"
      have v: "size_list size v \<le> size_list size (elements (arr ! i))"
        using 1(2) [OF lt arr d_def] by (simp add: v_def)
      have eq: "flattenArray_loop depth arr i = flattenArray_loop depth (splice_js arr i 1 v) (i + 1)"
        using 1(1) lt arr by (simp add: flattenArray_loop.psimps d_def v_def Let_def)
      have "size_list size (flattenArray_loop depth (splice_js arr i 1 v) (i + 1))
              \<le> size_list size (splice_js arr i 1 v)"
        using 1(3) [OF lt arr d_def v_def] .
      also have "\<dots> = size_list size (take i arr) + (size_list size v + size_list size (drop (i + 1) arr))"
        by (simp add: splice_js_def)
      also have "\<dots> \<le> size_list size (take i arr) + size_list size (drop i arr)"
        using v lt arr by (simp add: size_list_drop_nth size_list_elements)
      also have "\<dots> = size_list size arr"
        by (rule size_list_take_drop)
      finally show ?thesis using eq by simp
    qed
  qed
qed

termination flattenArray_loop
proof (relation "measure (\<lambda>(depth, arr, i). size_list size (drop i arr))", goal_cases)
  case 1
  show ?case by simp
next
  case (2 depth arr i d)
  then show ?case by (simp add: size_list_drop_nth size_list_elements)
next
  case (3 depth arr i d v)
  have v: "size_list size v \<le> size_list size (elements (arr ! i))"
    using 3 flattenArray_loop_size [of d "elements (arr ! i)" 0] by (auto split: if_splits)
  have "drop (i + 1) (splice_js arr i 1 v) = drop 1 (v @ drop (i + 1) arr)"
    using 3(1) by (simp add: splice_js_def)
  then have "size_list size (drop (i + 1) (splice_js arr i 1 v))
               \<le> size_list size v + size_list size (drop (i + 1) arr)"
    using size_list_drop_le [of size 1 "v @ drop (i + 1) arr"] by simp
  also have "\<dots> < size_list size (drop i arr)"
    using 3(1,2) v by (simp add: size_list_drop_nth size_list_elements)
  finally show ?case by simp
next
  case (4 depth arr i)
  then show ?case by (simp add: size_list_drop_nth)
qed

declare flattenArray_loop.simps [simp del]

definition flattenArray :: "jsval list \<Rightarrow> jsval \<Rightarrow> jsval list" where
  "flattenArray arr depth0 =
     (let depth = with_default (JNum 1) depth0 in
      if \<not> truthy depth then arr else flattenArray_loop depth arr 0)"

definition flatten :: "host \<Rightarrow> jsval \<Rightarrow> jsval \<Rightarrow> jsval" where
  "flatten H arr depth0 =
     (let depth = with_default (JNum 1) depth0 in
      if \<not> truthy depth then arr
      else if isArray arr then JArr (flattenArray (elements arr) depth)
      else if isObject H arr then JObj (flattenObj H arr [] [] False)
      else arr)"

lemma flatten_array:
  "isArray v \<Longrightarrow>
     elements (flatten H v d0) =
       (let d = with_default (JNum 1) d0 in
        if truthy d then flattenArray_loop d (elements v) 0 else elements v)"
  by (simp add: flatten_def flattenArray_def Let_def with_default_def elements_def)

section \<open>collections.ts: contains, index\<close>

text \<open>
  The arithmetic of \<open>index\<close>. A number, \<open>undefined\<close> (which converts to \<open>NaN\<close>),
  \<open>null\<close> and a boolean are compared and added as numbers, \<open>None\<close> standing for
  \<open>NaN\<close>; a comparison with \<open>NaN\<close> is false. Any other operand has to be converted
  first, and the operation is the host's.
\<close>

definition simple_number :: "jsval \<Rightarrow> int option option" where
  "simple_number v =
     (case v of
        JNum n \<Rightarrow> Some (Some n)
      | JNaN \<Rightarrow> Some None
      | JUndefined \<Rightarrow> Some None
      | JNull \<Rightarrow> Some (Some 0)
      | JBool b \<Rightarrow> Some (Some (if b then 1 else 0))
      | _ \<Rightarrow> None)"

definition js_lt :: "host \<Rightarrow> jsval \<Rightarrow> jsval \<Rightarrow> bool" where
  "js_lt H a b =
     (case (simple_number a, simple_number b) of
        (Some (Some m), Some (Some n)) \<Rightarrow> m < n
      | (Some x, Some y) \<Rightarrow> False
      | _ \<Rightarrow> truthy (H ''<'' [a, b]))"

definition js_ge :: "host \<Rightarrow> jsval \<Rightarrow> jsval \<Rightarrow> bool" where
  "js_ge H a b =
     (case (simple_number a, simple_number b) of
        (Some (Some m), Some (Some n)) \<Rightarrow> m \<ge> n
      | (Some x, Some y) \<Rightarrow> False
      | _ \<Rightarrow> truthy (H ''>='' [a, b]))"

text \<open>\<open>start + length\<close> for a number \<open>start\<close>: a sum of numbers, or the concatenation
  with a string.\<close>

definition js_add :: "host \<Rightarrow> int \<Rightarrow> jsval \<Rightarrow> jsval" where
  "js_add H a v =
     (case v of
        JStr s \<Rightarrow> JStr (number_to_string H a @ s)
      | _ \<Rightarrow> (case simple_number v of
                Some (Some n) \<Rightarrow> JNum (a + n)
              | Some None \<Rightarrow> JNaN
              | None \<Rightarrow> H ''+'' [JNum a, v]))"

text \<open>\<open>Math.max(v, 0)\<close>, a number: \<open>None\<close> is \<open>NaN\<close>.\<close>

definition js_max0 :: "host \<Rightarrow> jsval \<Rightarrow> int option" where
  "js_max0 H v =
     (case simple_number v of
        Some (Some n) \<Rightarrow> Some (max n 0)
      | Some None \<Rightarrow> None
      | None \<Rightarrow> (case H ''Math.max'' [v, JNum 0] of JNum n \<Rightarrow> Some n | _ \<Rightarrow> None))"

definition number_value :: "int option \<Rightarrow> jsval" where
  "number_value n = (case n of Some i \<Rightarrow> JNum i | None \<Rightarrow> JNaN)"

text \<open>\<open>s.indexOf(t, position)\<close> of a string: the first place from \<open>position\<close> on where
  \<open>t\<close> occurs, or \<open>-1\<close>; a \<open>NaN\<close> position is 0.\<close>

fun search_from :: "string \<Rightarrow> string \<Rightarrow> nat \<Rightarrow> int" where
  "search_from t [] k = (if t = [] then int k else - 1)"
| "search_from t (c # cs) k =
     (if take (length t) (c # cs) = t then int k else search_from t cs (k + 1))"

definition string_indexOf :: "string \<Rightarrow> string \<Rightarrow> int option \<Rightarrow> int" where
  "string_indexOf s t position =
     (let pos = min (nat (case position of Some p \<Rightarrow> p | None \<Rightarrow> 0)) (length s)
      in search_from t (drop pos s) pos)"

text \<open>
  The scan \<open>for (; start < length; start++) if (eq(x, obj[start])) return start\<close> and the
  \<open>return -1\<close> after it. The equality oracle \<open>eq\<close> comes from operators.js, which is not
  among the sources: it is a parameter. With a length that is no number the host decides
  each comparison, and the scan need not end: the result is optional.
\<close>

partial_function (option) index_loop ::
  "host \<Rightarrow> (jsval \<Rightarrow> jsval \<Rightarrow> bool) \<Rightarrow> jsval \<Rightarrow> jsval \<Rightarrow> int \<Rightarrow> jsval \<Rightarrow> int option" where
  "index_loop H eq obj x start len =
     (if js_lt H (JNum start) len then
        (if eq x (js_prop H obj (number_to_string H start)) then Some start
         else index_loop H eq obj x (start + 1) len)
      else Some (- 1))"

declare index_loop.simps [code]

text \<open>The generic part of \<open>index\<close>, everything after the two delegation attempts.\<close>

definition index_generic ::
  "host \<Rightarrow> fun_interp \<Rightarrow> (jsval \<Rightarrow> jsval \<Rightarrow> bool) \<Rightarrow> jsval \<Rightarrow> jsval \<Rightarrow> int
    \<Rightarrow> (error + jsval) option" where
  "index_generic H app eq obj x start0 =
     (case getprop H obj (JStr ''length'') of
        Inl e \<Rightarrow> Some (Inl e)
      | Inr len \<Rightarrow>
          (let start = (if start0 < 0 then js_max0 H (js_add H start0 len) else Some start0)
           in if isString H obj then
                (if js_ge H (number_value start) len then Some (Inr (JNum (- 1)))
                 else (case obj of
                         JStr s \<Rightarrow> Some (Inr (JNum (string_indexOf s (to_string H x) start)))
                       | JString s \<Rightarrow> Some (Inr (JNum (string_indexOf s (to_string H x) start)))
                       | _ \<Rightarrow> Some (invoke H app (js_prop H obj ''indexOf'') obj
                                       [x, number_value start])))
              else (case start of
                      Some n \<Rightarrow> map_option (\<lambda>i. Inr (JNum i)) (index_loop H eq obj x n len)
                    | None \<Rightarrow> Some (Inr (JNum (- 1))))))"

text \<open>\<open>index(obj, x, start = 0)\<close> and \<open>contains(arr, y)\<close>, as written: the method name is
  the first argument of \<open>call\<close>, the operand the second.\<close>

definition index ::
  "host \<Rightarrow> fun_interp \<Rightarrow> (jsval \<Rightarrow> jsval \<Rightarrow> bool) \<Rightarrow> jsval \<Rightarrow> jsval \<Rightarrow> int
    \<Rightarrow> (error + jsval) option" where
  "index H app eq obj x start =
     (case call H app (JStr ''indexOf'') obj [x] of
        Inl e \<Rightarrow> Some (Inl e)
      | Inr op \<Rightarrow>
          (if \<not> isNull op then Some (Inr op)
           else (case call H app (JStr ''index'') obj [x] of
                   Inl e \<Rightarrow> Some (Inl e)
                 | Inr op \<Rightarrow>
                     (if \<not> isNull op then Some (Inr op)
                      else index_generic H app eq obj x start))))"

definition contains ::
  "host \<Rightarrow> fun_interp \<Rightarrow> (jsval \<Rightarrow> jsval \<Rightarrow> bool) \<Rightarrow> jsval \<Rightarrow> jsval \<Rightarrow> (error + jsval) option" where
  "contains H app eq arr y =
     (case call H app (JStr ''contains'') arr [y] of
        Inl e \<Rightarrow> Some (Inl e)
      | Inr op \<Rightarrow>
          (if \<not> isNull op then Some (Inr op)
           else (case index H app eq arr y 0 of
                   None \<Rightarrow> None
                 | Some (Inl e) \<Rightarrow> Some (Inl e)
                 | Some (Inr r) \<Rightarrow> Some (Inr (JBool (js_ge H r (JNum 0)))))))"

section \<open>collections.ts: uniq, sortedUniq\<close>








section \<open>Notions of the claims\<close>

text \<open>A host that answers \<open>undefined\<close> to every question, for the evaluations at
  concrete inputs.\<close>

definition silent :: host where
  "silent op args = JUndefined"

text \<open>The claim's reading of a depth budget: each level of the budget removes one level of
  nesting, and what is spliced in is not looked at again.\<close>

fun flatten_within :: "nat \<Rightarrow> jsval list \<Rightarrow> jsval list" where
  "flatten_within 0 xs = xs"
| "flatten_within (Suc d) xs =
     concat (map (\<lambda>x. if isArray x then flatten_within d (elements x) else [x]) xs)"

text \<open>The other reading of the same claim: the scan stays on the position of the splice, so
  that no nested array is left at any depth.\<close>

fun flatten_all :: "jsval \<Rightarrow> jsval list" where
  "flatten_all (JArr xs) = concat (map flatten_all xs)"
| "flatten_all v = [v]"

text \<open>A scalar primitive: a string, a number or a boolean, and \<open>null\<close> or \<open>undefined\<close>
  when \<open>keepNull\<close> is set.\<close>

definition scalar_leaf :: "bool \<Rightarrow> jsval \<Rightarrow> bool" where
  "scalar_leaf keepNull v =
     (case v of
        JStr s \<Rightarrow> True
      | JNum n \<Rightarrow> True
      | JBool b \<Rightarrow> True
      | JNull \<Rightarrow> keepNull
      | JUndefined \<Rightarrow> keepNull
      | _ \<Rightarrow> False)"

text \<open>What \<open>type\<close> calls a string, a number or a boolean besides the primitives: a String
  or Boolean object, and an object that says so by its \<open>Symbol.toStringTag\<close>.\<close>

definition typed_scalar :: "jsval \<Rightarrow> bool" where
  "typed_scalar v =
     (case v of
        JString s \<Rightarrow> True
      | JBoolean b \<Rightarrow> True
      | JTagged t ps \<Rightarrow> t = JStr ''string'' \<or> t = JStr ''number'' \<or> t = JStr ''boolean''
      | _ \<Rightarrow> False)"

text \<open>An array nested one level at most, with no empty nested array; and an element, or
  the elements of a nested array.\<close>

definition shallow_nested :: "jsval list \<Rightarrow> bool" where
  "shallow_nested A =
     list_all (\<lambda>x. if isArray x
                   then elements x \<noteq> [] \<and> list_all (\<lambda>y. \<not> isArray y) (elements x)
                   else True) A"

definition expand1 :: "jsval \<Rightarrow> jsval list" where
  "expand1 x = (if isArray x then elements x else [x])"




text \<open>The interpretation under which every function handle is \<open>x => x\<close>.\<close>

definition first_arg :: fun_interp where
  "first_arg f this args = (case args of [] \<Rightarrow> Inr JUndefined | a # rest \<Rightarrow> Inr a)"


text \<open>Interpretations for the examples, and an equality oracle: values of equal contents.\<close>

definition method_true :: fun_interp where
  "method_true f this args = Inr (JBool True)"

definition method_seven :: fun_interp where
  "method_seven f this args = Inr (JNum 7)"

definition same_value :: "jsval \<Rightarrow> jsval \<Rightarrow> bool" where
  "same_value x y = (x = y)"

section \<open>Properties\<close>

subsection \<open>Collection\<close>

text \<open>
  C7. The claim: \<open>remove(x)\<close> of a collection that inherits the base method fails with
  a ValueError when \<open>x\<close> is not present. In the code the inherited \<open>remove\<close> has an empty
  body: nothing is present (\<open>contains\<close> is constantly false) and \<open>remove\<close> returns
  \<open>undefined\<close> normally.
\<close>

theorem Collection_remove_returns:
  "Collection_contains s x = False \<and> Collection_remove s x = (Inr JUndefined, s)"
  by (simp add: Collection_contains_def Collection_remove_def)

subsection \<open>FrozenSet\<close>

lemma Set_fill_FrozenSet_add:
  "Set_fill FrozenSet_add s (x # xs) = Inl FrozenMutationError"
  by (simp add: FrozenSet_add_def)

text \<open>
  C2. The claim: for every finite iterable, \<open>new FrozenSet(it)\<close> succeeds and holds the
  distinct elements of \<open>it\<close>; in particular \<open>new FrozenSet([1,2,3])\<close> is constructed. In
  the code the construction of \<open>new FrozenSet([1,2,3])\<close> throws: the \<open>Set\<close> constructor
  adds the elements through the overridden \<open>add\<close>, which always throws.
\<close>

theorem FrozenSet_constructor_throws:
  "FrozenSet_constructor (Some [1, 2, 3 :: int]) = Inl (TypeError ''FrozenSet cannot be modified.'')"
  by (simp add: FrozenSet_constructor_def Set_constructor_def FrozenSet_add_def
      FrozenMutationError_def)

text \<open>So does the construction from every non-empty iterable; only an absent or empty
  one gives a (frozen, empty) set.\<close>

lemma FrozenSet_constructor_nonempty:
  "FrozenSet_constructor (Some (x # xs)) = Inl FrozenMutationError"
  by (simp add: FrozenSet_constructor_def Set_constructor_def Set_fill_FrozenSet_add
      del: Set_fill.simps)

lemma FrozenSet_constructor_empty:
  "FrozenSet_constructor (Some []) = Inr \<lparr>data = [], frozen = True\<rparr>"
  "FrozenSet_constructor None = Inr \<lparr>data = [], frozen = True\<rparr>"
  by (simp_all add: FrozenSet_constructor_def Set_constructor_def freeze_def)

text \<open>The constructor of \<open>Set\<close> itself, with the \<open>add\<close> it inherits, does fill the set.\<close>

lemma Set_constructor_native:
  "Set_constructor Set_add (Some [1, 2, 2, 3 :: int]) = Inr \<lparr>data = [1, 2, 3], frozen = False\<rparr>"
  by (simp add: Set_constructor_def Set_add_def)

lemma FrozenSet_call_fails: "FrozenSet_call s m = (Inl FrozenMutationError, s)"
  by (cases m) (simp_all add: FrozenSet_add_def FrozenSet_delete_def FrozenSet_clear_def)

text \<open>
  C3. For every \<open>FrozenSet\<close> and every sequence of calls to \<open>add\<close>, \<open>delete\<close> and
  \<open>clear\<close>, each call fails with the frozen-mutation error, and the set (its elements
  included) is the same after the calls as before.
\<close>

theorem FrozenSet_mutations_fail:
  "FrozenSet_calls s ms = (replicate (length ms) (Inl FrozenMutationError), s)"
  by (induction ms arbitrary: s) (simp_all add: FrozenSet_call_fails)

subsection \<open>flatten of arrays\<close>

text \<open>
  C5. The claim as stated: for every array \<open>A\<close>, no element of \<open>flatten(A.slice(), 1)\<close> is
  an array. It fails at \<open>[[[1]]]\<close>, where one level of flattening leaves \<open>[[1]]\<close>.
\<close>

theorem flatten_depth1_counterexample:
  "\<not> list_all (\<lambda>x. \<not> isArray x) (elements (flatten silent (JArr [JArr [JArr [JNum 1]]]) (JNum 1)))"
  by code_simp

lemma flattenArray_loop_shallow:
  "depth = JNum 1 \<Longrightarrow> shallow_nested (drop i arr) \<Longrightarrow>
     flattenArray_loop depth arr i = take i arr @ concat (map expand1 (drop i arr))"
proof (induction depth arr i rule: flattenArray_loop.induct)
  case (1 depth arr i)
  note d1 = \<open>depth = JNum 1\<close>
  show ?case
  proof (cases "i < length arr")
    case False
    then show ?thesis by (subst flattenArray_loop.simps) simp
  next
    case lt: True
    then have dr: "drop i arr = arr ! i # drop (Suc i) arr"
      by (simp add: Cons_nth_drop_Suc)
    have tk: "take (Suc i) arr = take i arr @ [arr ! i]"
      using lt by (simp add: take_Suc_conv_app_nth)
    from "1.prems"(2) dr have rest: "shallow_nested (drop (Suc i) arr)"
      by (simp add: shallow_nested_def)
    show ?thesis
    proof (cases "isArray (arr ! i)")
      case False
      have "flattenArray_loop depth arr i = flattenArray_loop depth arr (i + 1)"
        using lt False by (subst flattenArray_loop.simps) simp
      also have "\<dots> = take (Suc i) arr @ concat (map expand1 (drop (Suc i) arr))"
        using "1.IH"(3) [OF lt False d1] rest by simp
      also have "\<dots> = take i arr @ concat (map expand1 (drop i arr))"
        using False by (simp add: tk dr expand1_def)
      finally show ?thesis .
    next
      case arr: True
      define d where "d = with_default (JNum 1) (next_depth depth)"
      define v where "v = (if truthy d then flattenArray_loop d (elements (arr ! i)) 0
                           else elements (arr ! i))"
      have "d = JNum 0" by (simp add: d_def d1 next_depth_def with_default_def)
      then have v: "v = elements (arr ! i)" by (simp add: v_def truthy_def)
      from "1.prems"(2) dr arr have ne: "v \<noteq> []" and flat: "list_all (\<lambda>y. \<not> isArray y) v"
        by (simp_all add: shallow_nested_def v)
      have flat_id: "\<And>ys. list_all (\<lambda>y. \<not> isArray y) ys \<Longrightarrow> concat (map expand1 ys) = ys"
      proof -
        fix ys :: "jsval list"
        show "list_all (\<lambda>y. \<not> isArray y) ys \<Longrightarrow> concat (map expand1 ys) = ys"
          by (induction ys) (simp_all add: expand1_def)
      qed
      have flat_sh: "\<And>ys. list_all (\<lambda>y. \<not> isArray y) ys \<Longrightarrow> shallow_nested ys"
        by (simp add: shallow_nested_def list_all_iff)
      let ?arr = "splice_js arr i 1 v"
      have dr': "drop (Suc i) ?arr = tl v @ drop (Suc i) arr"
        using lt ne by (cases v) (simp_all add: splice_js_def)
      have tk': "take (Suc i) ?arr = take i arr @ [hd v]"
        using lt ne by (cases v) (simp_all add: splice_js_def)
      have tlv: "list_all (\<lambda>y. \<not> isArray y) (tl v)"
        using flat ne by (cases v) simp_all
      have sh': "shallow_nested (drop (Suc i) ?arr)"
        unfolding dr' using flat_sh [OF tlv] rest by (simp add: shallow_nested_def)
      have "flattenArray_loop depth arr i = flattenArray_loop depth ?arr (i + 1)"
        using lt arr by (subst flattenArray_loop.simps) (simp add: d_def v_def Let_def)
      also have "\<dots> = take (Suc i) ?arr @ concat (map expand1 (drop (Suc i) ?arr))"
        using "1.IH"(2) [OF lt arr d_def v_def d1] sh' by simp
      also have "\<dots> = take i arr @ [hd v] @ tl v @ concat (map expand1 (drop (Suc i) arr))"
        unfolding tk' dr' by (simp add: flat_id [OF tlv])
      also have "\<dots> = take i arr @ concat (map expand1 (drop i arr))"
        using ne arr by (simp add: dr expand1_def v)
      finally show ?thesis .
    qed
  qed
qed

text \<open>
  C5, amended. For every array \<open>A\<close> whose nested arrays are non-empty and hold no array
  themselves, \<open>flatten(A.slice(), 1)\<close> is \<open>A\<close> with each nested array replaced by its
  elements, and so has no array among its elements.
\<close>

theorem flatten_depth1_shallow:
  "shallow_nested A \<Longrightarrow>
     flatten H (JArr A) (JNum 1) = JArr (concat (map expand1 A)) \<and>
     list_all (\<lambda>x. \<not> isArray x) (elements (flatten H (JArr A) (JNum 1)))"
proof -
  assume sh: "shallow_nested A"
  have eq: "flatten H (JArr A) (JNum 1) = JArr (concat (map expand1 A))"
    using flattenArray_loop_shallow [of "JNum 1" 0 A] sh
    by (simp add: flatten_def flattenArray_def with_default_def truthy_def isArray_def elements_def)
  have "list_all (\<lambda>x. \<not> isArray x) (concat (map expand1 A))"
    using sh by (induction A) (simp_all add: shallow_nested_def expand1_def)
  then show ?thesis using eq by (simp add: elements_def)
qed

theorem flatten_depth1_shallow_witness:
  "shallow_nested [JArr [JNum 1, JNum 2], JNum 3] \<and>
   flatten silent (JArr [JArr [JNum 1, JNum 2], JNum 3]) (JNum 1) = JArr [JNum 1, JNum 2, JNum 3] \<and>
   list_all (\<lambda>x. \<not> isArray x) (elements (flatten silent (JArr [JArr [JNum 1, JNum 2], JNum 3]) (JNum 1)))"
  using flatten_depth1_shallow [of "[JArr [JNum 1, JNum 2], JNum 3]" silent]
  by (simp add: shallow_nested_def expand1_def isArray_def elements_def)

text \<open>
  C4. The claim: scanning left to right, \<open>flattenArray(arr, d)\<close> with a numeric depth
  \<open>d \<ge> 1\<close> neither skips a nested array that it has spliced in nor flattens it at the
  budget \<open>d\<close>. Read as a depth budget, the result is \<open>flatten_within d arr\<close>; read as
  a scan that goes on from the position of the splice, it is the complete flattening
  \<open>flatten_all\<close>. The code does \<open>i++\<close> after the splice whatever the length of the
  spliced contents: the first spliced element is not looked at, the others are scanned at
  the budget \<open>d\<close>, and after an empty nested array the element that follows is stepped
  over. At \<open>[[[1], [2]]]\<close> and depth 1 the code returns \<open>[[1], 2]\<close>, which is neither
  \<open>[[1], [2]]\<close> nor \<open>[1, 2]\<close>; at \<open>[[], [1]]\<close> it returns \<open>[[1]]\<close>, where both
  readings give \<open>[1]\<close>.
\<close>

theorem flattenArray_rescans_spliced:
  "flattenArray [JArr [JArr [JNum 1], JArr [JNum 2]]] (JNum 1) = [JArr [JNum 1], JNum 2] \<and>
   flatten_within 1 [JArr [JArr [JNum 1], JArr [JNum 2]]] = [JArr [JNum 1], JArr [JNum 2]] \<and>
   flatten_all (JArr [JArr [JArr [JNum 1], JArr [JNum 2]]]) = [JNum 1, JNum 2] \<and>
   flattenArray [JArr [], JArr [JNum 1]] (JNum 1) = [JArr [JNum 1]] \<and>
   flatten_within 1 [JArr [], JArr [JNum 1]] = [JNum 1] \<and>
   flatten_all (JArr [JArr [], JArr [JNum 1]]) = [JNum 1]"
  by code_simp

text \<open>One more instance: what was spliced in under the budget 0 is flattened at the
  budget 1.\<close>

lemma flattenArray_second_spliced:
  "flattenArray [JArr [JNum 1, JArr [JNum 2]]] (JNum 1) = [JNum 1, JNum 2]"
  by code_simp

subsection \<open>Assignment to a plain object\<close>

lemma map_of_replace_value:
  "k \<in> fst ` set ps \<Longrightarrow> map_of (replace_value k v ps) x = (if x = k then Some v else map_of ps x)"
  by (induction ps) force+

lemma keys_replace_value: "fst ` set (replace_value k v ps) = fst ` set ps"
  by (induction ps) auto

lemma distinct_replace_value: "map fst (replace_value k v ps) = map fst ps"
  by (induction ps) auto

lemma map_of_insert_index:
  "k \<notin> fst ` set ps \<Longrightarrow>
     map_of (insert_index n k v ps) x = (if x = k then Some v else map_of ps x)"
  by (induction ps) (auto split: option.splits)

lemma map_of_absent: "k \<notin> fst ` set ps \<Longrightarrow> map_of ps k = None"
  by (simp add: map_of_eq_None_iff)

lemma keys_insert_index: "fst ` set (insert_index n k v ps) = insert k (fst ` set ps)"
  by (induction ps) (auto split: option.splits)

lemma distinct_insert_index:
  "k \<notin> fst ` set ps \<Longrightarrow> distinct (map fst ps) \<Longrightarrow> distinct (map fst (insert_index n k v ps))"
proof (induction ps)
  case Nil
  then show ?case by simp
next
  case (Cons p ps)
  have "fst p \<notin> fst ` set (insert_index n k v ps)"
    using Cons.prems by (auto simp: keys_insert_index)
  then show ?case
    using Cons by (auto split: option.splits)
qed

text \<open>An assignment under a key other than \<open>__proto__\<close> stores the value; under
  \<open>__proto__\<close>, on an object that has no such own property, it stores nothing.\<close>

lemma map_of_obj_set:
  "k \<noteq> ''__proto__'' \<Longrightarrow> map_of (obj_set ps k v) x = (if x = k then Some v else map_of ps x)"
  by (auto simp: obj_set_def map_of_replace_value map_of_insert_index map_add_def map_of_absent
      split: option.splits)

lemma keys_obj_set:
  "k \<noteq> ''__proto__'' \<Longrightarrow> fst ` set (obj_set ps k v) = insert k (fst ` set ps)"
  by (auto simp: obj_set_def keys_replace_value keys_insert_index split: option.splits)

lemma obj_set_proto: "''__proto__'' \<notin> fst ` set ps \<Longrightarrow> obj_set ps ''__proto__'' v = ps"
  by (simp add: obj_set_def)

lemma distinct_obj_set: "distinct (map fst ps) \<Longrightarrow> distinct (map fst (obj_set ps k v))"
  by (auto simp: obj_set_def distinct_replace_value distinct_insert_index split: option.splits)

lemma values_replace_value: "snd ` set (replace_value k v ps) \<subseteq> insert v (snd ` set ps)"
  by (induction ps) auto

lemma values_insert_index: "snd ` set (insert_index n k v ps) = insert v (snd ` set ps)"
  by (induction ps) (auto split: option.splits)

lemma values_obj_set: "snd ` set (obj_set ps k v) \<subseteq> insert v (snd ` set ps)"
proof (cases "k \<in> set (map fst ps)")
  case True
  then show ?thesis
    using values_replace_value [of k v ps] by (simp add: obj_set_def)
next
  case False
  then show ?thesis
    by (auto simp: obj_set_def values_insert_index split: option.splits)
qed


subsection \<open>flattenObj\<close>

text \<open>
  C6. The claim as stated: every value of the mapping that \<open>flattenObj(O, '', {}, keepNull)\<close>
  returns is a scalar primitive (or \<open>null\<close>/\<open>undefined\<close> with \<open>keepNull\<close>), none is an
  object. It fails at \<open>{a: new String('x')}\<close>: \<open>type\<close> calls a String object a string
  (\<open>value instanceof String\<close>), so \<open>flattenObj\<close> stores the object as a leaf.
\<close>

theorem flattenObj_wrapper_counterexample:
  "flattenObj silent (JObj [(''a'', JString ''x'')]) [] [] False = [(''a'', JString ''x'')] \<and>
   typeof (JString ''x'') = ''object'' \<and>
   \<not> scalar_leaf False (JString ''x'')"
  by code_simp

lemma type_scalar:
  "type H obj = JStr ''string'' \<or> type H obj = JStr ''number'' \<or> type H obj = JStr ''boolean'' \<Longrightarrow>
     scalar_leaf False obj \<or> typed_scalar obj"
  by (cases obj)
    (auto simp: type_def scalar_leaf_def typed_scalar_def instance_of_def toStringTag_def
      isArray_def truthy_def Let_def split: if_splits)

lemma leaf_guard:
  "isString H obj \<or> isNumber H obj \<or> isBool H obj \<or> (keepNull \<and> isNull obj) \<Longrightarrow>
     scalar_leaf keepNull obj \<or> typed_scalar obj"
  using type_scalar [of H obj]
  by (cases obj) (auto simp: isString_def isNumber_def isBool_def isNull_def scalar_leaf_def)

lemma fold_invariant:
  "(\<And>x r. x \<in> set xs \<Longrightarrow> P r \<Longrightarrow> P (f x r)) \<Longrightarrow> P r \<Longrightarrow> P (fold f xs r)"
  by (induction xs arbitrary: r) simp_all

lemma flattenObj_leaves:
  "list_all (\<lambda>v. scalar_leaf keepNull v \<or> typed_scalar v) (map snd result) \<Longrightarrow>
     list_all (\<lambda>v. scalar_leaf keepNull v \<or> typed_scalar v)
       (map snd (flattenObj H obj prefix result keepNull))"
proof (induction H obj prefix result keepNull rule: flattenObj.induct)
  case (1 H obj prefix result keepNull)
  let ?leaf = "\<lambda>v. scalar_leaf keepNull v \<or> typed_scalar v"
  show ?case
  proof (cases "isString H obj \<or> isNumber H obj \<or> isBool H obj \<or> (keepNull \<and> isNull obj)")
    case True
    then have leaf: "?leaf obj" by (rule leaf_guard)
    have "flattenObj H obj prefix result keepNull = obj_set result prefix obj"
      using True by (subst flattenObj.simps) auto
    moreover have "list_all ?leaf (map snd (obj_set result prefix obj))"
      using values_obj_set [of result prefix obj] leaf "1.prems"
      by (fastforce simp: list_all_iff)
    ultimately show ?thesis by simp
  next
    case scalar: False
    show ?thesis
    proof (cases "isArray obj \<or> isObject H obj")
      case False
      then have "flattenObj H obj prefix result keepNull = result"
        using scalar by (subst flattenObj.simps) auto
      then show ?thesis using "1.prems" by simp
    next
      case True
      let ?f = "\<lambda>i result.
                  flattenObj H (js_prop H obj i)
                    (if isArray obj then prefix @ ''['' @ i @ '']''
                     else if isEmpty prefix then i
                     else prefix @ ''.'' @ i)
                    result keepNull"
      have eq: "flattenObj H obj prefix result keepNull = fold ?f (for_in obj) result"
        using scalar True by (subst flattenObj.simps) auto
      have "list_all ?leaf (map snd (fold ?f (for_in obj) result))"
      proof (rule fold_invariant [where P = "\<lambda>r. list_all ?leaf (map snd r)"])
        fix x and r :: "(string \<times> jsval) list"
        assume "x \<in> set (for_in obj)" and "list_all ?leaf (map snd r)"
        then show "list_all ?leaf (map snd (?f x r))"
          using "1.IH" [OF scalar True] by simp
      next
        show "list_all ?leaf (map snd result)" by (rule "1.prems")
      qed
      then show ?thesis using eq by simp
    qed
  qed
qed

text \<open>
  C6, amended. For every value \<open>obj\<close> and flag \<open>keepNull\<close>, every value of the mapping
  that \<open>flattenObj(obj, '', {}, keepNull)\<close> returns is what \<open>type\<close> calls a string, a
  number or a boolean: a primitive of that kind, a String or Boolean object, or an object
  whose \<open>Symbol.toStringTag\<close> is \<open>string\<close>, \<open>number\<close> or \<open>boolean\<close>; or it is \<open>null\<close>
  or \<open>undefined\<close>, with \<open>keepNull\<close> set. None is an array or a plain object.
\<close>

theorem flattenObj_values_scalar:
  "list_all (\<lambda>v. (scalar_leaf keepNull v \<or> typed_scalar v) \<and> \<not> isArray v \<and> typeof v \<noteq> ''function''
                  \<and> (\<forall>ps. v \<noteq> JObj ps))
     (map snd (flattenObj H obj [] [] keepNull))"
proof -
  have "list_all (\<lambda>v. scalar_leaf keepNull v \<or> typed_scalar v)
          (map snd (flattenObj H obj [] [] keepNull))"
    by (rule flattenObj_leaves) simp
  moreover have "\<And>v. scalar_leaf keepNull v \<or> typed_scalar v \<Longrightarrow>
       \<not> isArray v \<and> typeof v \<noteq> ''function'' \<and> (\<forall>ps. v \<noteq> JObj ps)"
    by (auto simp: scalar_leaf_def typed_scalar_def isArray_def split: jsval.splits)
  ultimately show ?thesis
    by (simp add: list_all_iff)
qed

text \<open>On primitives, arrays and plain objects the mapping is the one of the specification.\<close>

lemma flattenObj_example:
  "flattenObj silent (JObj [(''a'', JNum 1), (''b'', JArr [JStr ''x'', JNull, JObj [(''c'', JBool True)]])]) [] [] False
    = [(''a'', JNum 1), (''b[0]'', JStr ''x''), (''b[2].c'', JBool True)]"
  by code_simp

subsection \<open>flatten of mappings\<close>

text \<open>
  C10. The claim as stated: for every object \<open>o\<close> that is no array and every truthy depth,
  \<open>flatten(o, d)\<close> equals \<open>flattenObj(o)\<close>. It fails at \<open>{call: f, x: 1}\<close> with a function
  \<open>f\<close>: \<open>type\<close> calls an object with a callable \<open>call\<close> a function, so \<open>isObject\<close>
  rejects it; \<open>flatten\<close> returns the object itself and \<open>flattenObj\<close> the empty mapping.
\<close>

theorem flatten_mapping_counterexample:
  "typeof (JObj [(''call'', JFun 0), (''x'', JNum 1)]) = ''object'' \<and>
   \<not> isArray (JObj [(''call'', JFun 0), (''x'', JNum 1)]) \<and>
   truthy (JNum 1) \<and>
   flatten silent (JObj [(''call'', JFun 0), (''x'', JNum 1)]) (JNum 1)
     = JObj [(''call'', JFun 0), (''x'', JNum 1)] \<and>
   flattenObj silent (JObj [(''call'', JFun 0), (''x'', JNum 1)]) [] [] False = []"
  by code_simp

text \<open>
  C10, amended. For every value \<open>obj\<close> that the library's \<open>isObject\<close> accepts (its
  \<open>typeof\<close> is \<open>object\<close> and \<open>type\<close> calls it an object) and every truthy depth \<open>d\<close>,
  \<open>flatten(obj, d)\<close> is \<open>flattenObj(obj)\<close> with its default arguments: the depth is not
  passed on. Any other value that is no array is returned as it is.
\<close>

theorem flatten_mapping_ignores_depth:
  "truthy d \<Longrightarrow>
     (isObject H obj \<longrightarrow> flatten H obj d = JObj (flattenObj H obj [] [] False)) \<and>
     (\<not> isObject H obj \<and> \<not> isArray obj \<longrightarrow> flatten H obj d = obj)"
proof -
  assume d: "truthy d"
  then have wd: "with_default (JNum 1) d = d"
    by (auto simp: with_default_def truthy_def)
  have "isObject H obj \<Longrightarrow> \<not> isArray obj"
    by (cases obj) (auto simp: isObject_def type_def instance_of_def isArray_def truthy_def)
  then show ?thesis using d wd by (auto simp: flatten_def)
qed

theorem flatten_mapping_ignores_depth_witness:
  "truthy (JNum 1) \<and> truthy (JBool True) \<and>
   isObject silent (JObj [(''a'', JObj [(''b'', JNum 1)])]) \<and>
   flatten silent (JObj [(''a'', JObj [(''b'', JNum 1)])]) (JNum 1) = JObj [(''a.b'', JNum 1)] \<and>
   flatten silent (JObj [(''a'', JObj [(''b'', JNum 1)])]) (JBool True) = JObj [(''a.b'', JNum 1)] \<and>
   \<not> isObject silent (JString ''x'') \<and> \<not> isArray (JString ''x'') \<and>
   flatten silent (JString ''x'') (JNum 1) = JString ''x''"
proof -
  have ev: "isObject silent (JObj [(''a'', JObj [(''b'', JNum 1)])])"
    "flattenObj silent (JObj [(''a'', JObj [(''b'', JNum 1)])]) [] [] False = [(''a.b'', JNum 1)]"
    "\<not> isObject silent (JString ''x'')" "\<not> isArray (JString ''x'')"
    by code_simp+
  show ?thesis
    using flatten_mapping_ignores_depth [of "JNum 1" silent "JObj [(''a'', JObj [(''b'', JNum 1)])]"]
      flatten_mapping_ignores_depth [of "JBool True" silent "JObj [(''a'', JObj [(''b'', JNum 1)])]"]
      flatten_mapping_ignores_depth [of "JNum 1" silent "JString ''x''"]
      ev
    by (simp add: truthy_def)
qed

subsection \<open>pick\<close>

text \<open>
  C8. The claim as stated: for every object and every list \<open>ks\<close> of string keys, the keys
  of \<open>pick(obj, ks)\<close> are exactly those of \<open>ks\<close>. It fails at the key \<open>__proto__\<close>:
  \<open>result['__proto__'] = obj['__proto__']\<close> reaches the setter of \<open>Object.prototype\<close>
  and creates no property, so \<open>pick({a: 1}, ['__proto__'])\<close> is \<open>{}\<close>.
\<close>

theorem pick_proto_counterexample:
  "pick silent first_arg (JObj [(''a'', JNum 1)]) (JArr [JStr ''__proto__'']) = Inr [] \<and>
   pick silent first_arg (JObj [(''__proto__'', JNum 5), (''a'', JNum 1)]) (JArr [JStr ''__proto__''])
     = Inr []"
  by code_simp

lemma pick_keys_map_of:
  "''__proto__'' \<notin> set ks \<Longrightarrow>
     map_of (pick_keys H obj (map JStr ks) r) k =
       (if k \<in> set ks then Some (js_prop H obj k) else map_of r k)"
  by (induction ks arbitrary: r) (auto simp: map_of_obj_set)

lemma pick_keys_keys:
  "''__proto__'' \<notin> set ks \<Longrightarrow>
     fst ` set (pick_keys H obj (map JStr ks) r) = set ks \<union> fst ` set r"
proof (induction ks arbitrary: r)
  case Nil
  then show ?case by simp
next
  case (Cons a ks)
  from Cons.prems have a: "a \<noteq> ''__proto__''" and ks: "''__proto__'' \<notin> set ks" by auto
  show ?case
    using Cons.IH [OF ks, of "obj_set r a (js_prop H obj a)"] keys_obj_set [OF a, of r "js_prop H obj a"]
    by auto
qed

lemma pick_keys_distinct:
  "distinct (map fst r) \<Longrightarrow> distinct (map fst (pick_keys H obj (map JStr ks) r))"
  by (induction ks arbitrary: r) (auto simp: distinct_obj_set)

text \<open>
  C8, amended. For every \<open>obj\<close> other than \<open>null\<close> and \<open>undefined\<close> and every list
  \<open>ks\<close> of string keys without \<open>__proto__\<close>, \<open>pick(obj, ks)\<close> returns a mapping whose
  keys are exactly those of \<open>ks\<close>, each mapped to \<open>obj[k]\<close>; on a plain object that is
  \<open>undefined\<close> for a key that is neither a property of the object nor a member of
  \<open>Object.prototype\<close>. When \<open>obj\<close> is \<open>null\<close> or \<open>undefined\<close>, \<open>pick\<close> returns the
  empty mapping whatever the selector, without failing.
\<close>

theorem pick_listed_keys:
  "(isNull obj \<longrightarrow> pick H app obj paths = Inr []) \<and>
   (\<not> isNull obj \<and> ''__proto__'' \<notin> set ks \<longrightarrow>
      (\<exists>r. pick H app obj (JArr (map JStr ks)) = Inr r \<and>
           set (map fst r) = set ks \<and> distinct (map fst r) \<and>
           (\<forall>k \<in> set ks. map_of r k = Some (js_prop H obj k)))) \<and>
   (map_of ps k = None \<and> k \<notin> set object_prototype_names \<longrightarrow> js_prop H (JObj ps) k = JUndefined)"
  by (auto simp: pick_def pick_keys_map_of pick_keys_keys pick_keys_distinct isArray_def
      elements_def js_prop_def object_prototype_member_def object_prototype_names_def)

theorem pick_listed_keys_witness:
  "\<not> isNull (JObj [(''a'', JNum 1)]) \<and> ''__proto__'' \<notin> set [''a'', ''z''] \<and>
   (\<exists>r. pick silent first_arg (JObj [(''a'', JNum 1)]) (JArr (map JStr [''a'', ''z''])) = Inr r \<and>
        set (map fst r) = set [''a'', ''z''] \<and> distinct (map fst r) \<and>
        map_of r ''a'' = Some (JNum 1) \<and> map_of r ''z'' = Some JUndefined) \<and>
   isNull JNull \<and>
   pick silent first_arg JNull (JArr [JStr ''a'']) = Inr []"
  using pick_listed_keys [of "JObj [(''a'', JNum 1)]" silent first_arg "JArr []" "[''a'', ''z'']" "[(''a'', JNum 1)]" "''z''"]
    pick_listed_keys [of JNull silent first_arg "JArr [JStr ''a'']" "[]" "[]" "''z''"]
  by (auto simp: isNull_def js_prop_def object_prototype_member_def object_prototype_names_def)

text \<open>The two examples of the specification, and an inherited member.\<close>

lemma pick_examples:
  "pick H app (JObj [(''a'', JNum 1), (''b'', JNum 2), (''c'', JNum 3)]) (JArr [JStr ''a'', JStr ''c''])
     = Inr [(''a'', JNum 1), (''c'', JNum 3)]"
  "pick H app (JObj [(''a'', JNum 1)]) (JArr [JStr ''z'']) = Inr [(''z'', JUndefined)]"
  "pick H app (JObj [(''a'', JNum 1)]) (JArr [JStr ''toString''])
     = Inr [(''toString'', JNative ''Object.prototype.toString'')]"
  by code_simp+

subsection \<open>contains, index\<close>

text \<open>
  \<open>contains\<close> and \<open>index\<close> write \<open>call('contains', arr, y)\<close>, \<open>call('indexOf', obj, x)\<close>
  and \<open>call('index', obj, x)\<close>: the method name stands where \<open>call(obj, key, ...args)\<close>
  expects the object, the operand where it expects the key. So \<open>call\<close> looks the operand
  up as a property of the name; unless that finds a function, nothing is called.
\<close>

lemma call_name_first:
  "typeof operand \<noteq> ''string'' \<Longrightarrow> \<not> isArray operand \<Longrightarrow>
   \<not> isFunc H (js_prop H (JStr name) (to_string H operand)) \<Longrightarrow>
     call H app (JStr name) operand args = Inr JUndefined"
  by (simp add: call_def get_def getprop_def isNull_def isFunc_def Let_def)

text \<open>The key a plain object stands for is \<open>[object Object]\<close>, which names no member of a
  string: whatever methods the object has, none is reached and the generic path runs.\<close>

lemma call_name_first_object:
  "map_of ps ''toString'' = None \<Longrightarrow> call H app (JStr name) (JObj ps) args = Inr JUndefined"
proof -
  assume "map_of ps ''toString'' = None"
  then have key: "to_string H (JObj ps) = ''[object Object]''" by simp
  have "js_prop H (JStr name) ''[object Object]'' = JUndefined"
    by (simp add: js_prop_def string_member_def canonical_nat_def host_member_def
        is_identifier_def is_identifier_char_def is_digit_def)
  then have "\<not> isFunc H (js_prop H (JStr name) (to_string H (JObj ps)))"
    unfolding key by (simp add: isFunc_def isNull_def)
  then show ?thesis
    by (intro call_name_first) (simp_all add: isArray_def)
qed

lemma contains_object_generic:
  "map_of ps ''toString'' = None \<Longrightarrow>
     index H app eq (JObj ps) x start = index_generic H app eq (JObj ps) x start \<and>
     contains H app eq (JObj ps) y =
       (case index_generic H app eq (JObj ps) y 0 of
          None \<Rightarrow> None
        | Some (Inl e) \<Rightarrow> Some (Inl e)
        | Some (Inr r) \<Rightarrow> Some (Inr (JBool (js_ge H r (JNum 0)))))"
  by (simp add: contains_def index_def call_name_first_object isNull_def)

text \<open>
  C1. The claim: an operand that exposes a callable method \<open>contains\<close> (or \<open>indexOf\<close>,
  \<open>index\<close>) gets that method's result from \<open>contains(operand, y)\<close> (or
  \<open>index(operand, x)\<close>), and the generic fallback does not run. With a \<open>contains\<close>
  method that answers \<open>true\<close>, \<open>call\<close> in the order of its declaration returns
  \<open>true\<close>; in the order in which \<open>contains\<close> writes it, it returns \<open>undefined\<close>, and
  \<open>contains\<close> answers \<open>false\<close> from the generic path. Likewise \<open>index\<close> answers
  \<open>-1\<close> on an operand whose \<open>indexOf\<close> method returns 7.
\<close>

theorem contains_ignores_method:
  "call silent method_true (JObj [(''contains'', JFun 0)]) (JStr ''contains'') [JNum 5] = Inr (JBool True) \<and>
   call silent method_true (JStr ''contains'') (JObj [(''contains'', JFun 0)]) [JNum 5] = Inr JUndefined \<and>
   contains silent method_true same_value (JObj [(''contains'', JFun 0)]) (JNum 5)
     = Some (Inr (JBool False)) \<and>
   index silent method_seven same_value (JObj [(''indexOf'', JFun 0)]) (JNum 5) 0
     = Some (Inr (JNum (- 1)))"
  by code_simp

text \<open>The scan over a numeric length ends, so \<open>index\<close> returns on every array.\<close>

lemma index_loop_returns:
  "\<exists>r. index_loop H eq obj x start (JNum l) = Some r"
proof (induction "nat (l - start)" arbitrary: start)
  case 0
  then have "\<not> js_lt H (JNum start) (JNum l)" by (simp add: js_lt_def simple_number_def)
  then show ?case by (subst index_loop.simps) simp
next
  case (Suc n)
  then have "n = nat (l - (start + 1))" by simp
  from Suc.hyps(1) [OF this] show ?case
    by (subst index_loop.simps) auto
qed

lemma index_array_returns: "\<exists>r. index H app eq (JArr xs) x start = Some r"
proof -
  have "\<exists>r. index_generic H app eq (JArr xs) x start = Some r"
    using index_loop_returns [of H eq "JArr xs" x _ "int (length xs)"]
    by (auto simp: index_generic_def getprop_def isNull_def js_prop_def canonical_nat_def
        is_digit_def Let_def js_add_def js_max0_def simple_number_def split: option.splits)
  then show ?thesis by (auto simp: index_def split: sum.splits)
qed

text \<open>The examples of the specification hold, through the generic path.\<close>

lemma contains_examples:
  "contains silent app same_value (JArr [JNum 1, JNum 2, JNum 3]) (JNum 2) = Some (Inr (JBool True))"
  "contains silent app same_value (JArr [JNum 1, JNum 2, JNum 3]) (JNum 9) = Some (Inr (JBool False))"
  "index silent app same_value (JStr ''hello'') (JStr ''l'') 0 = Some (Inr (JNum 2))"
  by code_simp+

subsection \<open>uniq, sortedUniq\<close>








end
